theory Spec2Isabelle
  imports Complex_Main "HOL-Library.Sublist"
begin

section \<open>The GraphQL stars crawler\<close>

text \<open>
  The script \<^verbatim>\<open>scripts/crawl_stars_graphql.py\<close> is one loop, \<open>main\<close>, around three
  storage helpers. The embedding keeps that shape: the storage helpers are functions
  on a record of the three tables, one
  pass through the body of the \<open>while\<close> loop is the function \<open>iteration\<close>, and the
  loop is \<open>crawl\<close>, which runs \<open>iteration\<close> over a list of environment readings (one
  element for each pass: what the network, the clock, the random generator and the
  storage engine answer during that pass).

  Durations and clock readings are rationals: the doubling and the cap of the backoff
  are exact on Python's floats, and rounding in the sums with the jitter is not
  modelled.
\<close>

subsection \<open>The response, as the query of lines 19--53 shapes it\<close>

text \<open>
  \<open>d.get(k, default)\<close> tells a missing key (the default) from a key holding JSON
  \<open>null\<close> (Python's \<open>None\<close>), so a key read that way has three states. A key read
  by \<open>d.get(k)\<close> gives \<open>None\<close> in both cases and is an \<open>option\<close>.
\<close>

datatype 'a field = Absent | Null | Val 'a

fun get_default :: "'a field \<Rightarrow> 'a \<Rightarrow> 'a option" where
  "get_default Absent dflt = Some dflt"
| "get_default Null dflt = None"
| "get_default (Val v) dflt = Some v"

record owner_obj =
  login :: "string option"

record language_obj =
  lang_name :: "string option"

record node =
  n_id :: "string option"
  n_databaseId :: "int option"
  n_name :: "string option"
  n_owner :: "owner_obj option"
  n_url :: "string option"
  n_description :: "string option"
  n_updatedAt :: "string option"
  n_stargazerCount :: "int option"
  n_primaryLanguage :: "language_obj option"

record rate_limit =
  remaining :: "int field"
  resetAt :: "string option"

record page_info =
  hasNextPage :: "bool field"
  endCursor :: "string option"

text \<open>
  An element of \<open>nodes\<close> is \<open>None\<close> when it is falsy in Python (JSON \<open>null\<close> or the
  empty object), and \<open>Some n\<close> when it is an object with keys.
\<close>

record search_obj =
  nodes :: "node option list field"
  pageInfo :: "page_info field"

record data_obj =
  rateLimit :: "rate_limit field"
  search :: "search_obj field"

record body =
  errors :: "string list option"
  data :: "data_obj field"

text \<open>
  What \<open>graphql_post\<close> gives: an exception of the transport, or a response with its
  status code and its body, \<open>None\<close> when the body is not JSON (\<open>resp.json()\<close> raises).
\<close>

datatype fetch_result = NetworkError | Response int "body option"

subsection \<open>The store\<close>

type_synonym date = int

record crawl_row =
  r_repo_id :: int
  r_github_node_id :: "string option"
  r_owner :: "string option"
  r_name :: "string option"
  r_full_name :: string
  r_url :: "string option"
  r_description :: "string option"
  r_language :: "string option"
  r_stargazerCount :: int
  r_updatedAt :: "string option"

record repo_row =
  c_github_node_id :: "string option"
  c_owner :: "string option"
  c_name :: "string option"
  c_full_name :: string
  c_url :: "string option"
  c_description :: "string option"
  c_language :: "string option"
  c_stargazers_count :: int
  c_last_repo_updated_at :: "string option"
  c_last_crawled_at :: rat
  c_updated_local_at :: rat

record database =
  repos :: "int \<rightharpoonup> repo_row"
  repo_stars_history :: "(int \<times> date) \<rightharpoonup> int"
  crawl_checkpoints :: "string \<rightharpoonup> (string \<times> rat)"

datatype exn = AttributeError | TypeError | JSONDecodeError | StorageError

definition read_checkpoint :: "database \<Rightarrow> string \<Rightarrow> string option" where
  "read_checkpoint db key =
     (case crawl_checkpoints db key of None \<Rightarrow> None | Some row \<Rightarrow> Some (fst row))"

text \<open>
  \<open>engine_ok\<close> is the storage engine's answer to the statement and its commit; when
  it is \<open>False\<close> psycopg2 raises and nothing is committed. \<open>db_now\<close> is the engine's
  \<open>now()\<close>.
\<close>

definition write_checkpoint ::
  "bool \<Rightarrow> rat \<Rightarrow> string \<Rightarrow> string \<Rightarrow> database \<Rightarrow> exn + database" where
  "write_checkpoint engine_ok db_now key val db =
     (if \<not> engine_ok then Inl StorageError
      else Inr (db\<lparr>crawl_checkpoints := (crawl_checkpoints db)(key \<mapsto> (val, db_now))\<rparr>))"

definition repo_values :: "rat \<Rightarrow> crawl_row \<Rightarrow> repo_row" where
  "repo_values now r =
     \<lparr>c_github_node_id = r_github_node_id r,
      c_owner = r_owner r,
      c_name = r_name r,
      c_full_name = r_full_name r,
      c_url = r_url r,
      c_description = r_description r,
      c_language = r_language r,
      c_stargazers_count = r_stargazerCount r,
      c_last_repo_updated_at = r_updatedAt r,
      c_last_crawled_at = now,
      c_updated_local_at = now\<rparr>"

definition upsert_repo :: "rat \<Rightarrow> crawl_row \<Rightarrow> (int \<rightharpoonup> repo_row) \<Rightarrow> (int \<rightharpoonup> repo_row)" where
  "upsert_repo now r tbl = tbl(r_repo_id r \<mapsto> repo_values now r)"

definition upsert_snapshot ::
  "date \<Rightarrow> crawl_row \<Rightarrow> ((int \<times> date) \<rightharpoonup> int) \<Rightarrow> ((int \<times> date) \<rightharpoonup> int)" where
  "upsert_snapshot today r tbl = tbl((r_repo_id r, today) \<mapsto> r_stargazerCount r)"

text \<open>
  The two \<open>INSERT ... ON CONFLICT ... DO UPDATE\<close> statements write the tuples in the
  order of \<open>rows\<close>, each one inserting its key or overwriting the row that has it.
  Every refusal of the engine (a constraint, a lost connection) is \<open>engine_ok = False\<close>.
\<close>

definition upsert_repos_and_snapshots ::
  "bool \<Rightarrow> date \<Rightarrow> rat \<Rightarrow> crawl_row list \<Rightarrow> database \<Rightarrow> exn + database" where
  "upsert_repos_and_snapshots engine_ok today now rows db =
     (if rows = [] then Inr db
      else if \<not> engine_ok then Inl StorageError
      else Inr (db\<lparr>repos := fold (upsert_repo now) rows (repos db),
                    repo_stars_history := fold (upsert_snapshot today) rows (repo_stars_history db)\<rparr>))"

subsection \<open>What a run does, in order\<close>

text \<open>
  \<open>Fetch\<close> is a call of \<open>graphql_post\<close> with its \<open>first\<close> and \<open>after\<close>, \<open>Upsert\<close> a
  call of \<open>upsert_repos_and_snapshots\<close> with its rows, \<open>CommitBatch\<close> the commit of
  line 148 and \<open>CommitCheckpoint\<close> the commit of line 88, both after they succeeded.
\<close>

datatype message =
    NetworkErrorMsg
  | HttpMsg int
  | GraphQLErrorsMsg
  | RateLimitLowMsg int
  | MissingDatabaseIdMsg "string option"
  | ProgressMsg int
  | NoNodesReturnedMsg
  | NoMorePagesMsg

datatype event =
    Fetch int "string option"
  | Print message
  | Sleep rat
  | Upsert "crawl_row list"
  | CommitBatch
  | CommitCheckpoint string

record config =
  total :: int
  page_size_arg :: int
  checkpoint_key :: string
  fromisoformat :: "string \<Rightarrow> rat option"

text \<open>
  \<open>fromisoformat cfg\<close> stands for the library calls of lines 207--208: \<open>Some t\<close> when
  the text parses to a timestamp with an offset, \<open>t\<close> its time in seconds; \<open>None\<close>
  when parsing raises, or gives a timestamp without offset, which the subtraction
  from the aware \<open>now\<close> refuses. Both raise inside the \<open>try\<close>.
\<close>

record state =
  fetched :: int
  after :: "string option"
  backoff_base :: rat
  db :: database
  trace :: "event list"

text \<open>One pass of the loop reads the environment at most once at each of these places.\<close>

record reading =
  fetch :: fetch_result
  rnd_retry :: rat
  rnd_reset :: rat
  rnd_pause :: rat
  clock :: rat
  today :: date
  now_utc :: rat
  upsert_ok :: bool
  ckpt_ok :: bool
  ckpt_now :: rat

datatype outcome = Continue state | Break state | Raised exn state

fun state_of :: "outcome \<Rightarrow> state" where
  "state_of (Continue s) = s"
| "state_of (Break s) = s"
| "state_of (Raised e s) = s"

definition emit :: "event \<Rightarrow> state \<Rightarrow> state" where
  "emit e s = s\<lparr>trace := trace s @ [e]\<rparr>"

definition sleep :: "rat \<Rightarrow> state \<Rightarrow> state" where
  "sleep seconds s = emit (Sleep seconds) s"

definition safe_sleep :: "rat \<Rightarrow> rat \<Rightarrow> state \<Rightarrow> state" where
  "safe_sleep seconds rnd s = sleep (seconds + rnd * (3 / 10)) s"

definition page_size :: "config \<Rightarrow> int" where
  "page_size cfg = min 100 (max 10 (page_size_arg cfg))"

definition retryable_status :: "int \<Rightarrow> bool" where
  "retryable_status code = (code = 502 \<or> code = 503 \<or> code = 504 \<or> code = 429)"

definition backoff :: "reading \<Rightarrow> state \<Rightarrow> state" where
  "backoff rd s =
     (let s1 = safe_sleep (backoff_base s) (rnd_retry rd) s
      in s1\<lparr>backoff_base := min (backoff_base s * 2) 60\<rparr>)"

subsection \<open>Lines 201--213: the quota\<close>

definition replace_Z :: "string \<Rightarrow> string" where
  "replace_Z str = concat (map (\<lambda>c. if c = CHR ''Z'' then ''+00:00'' else [c]) str)"

definition telemetry :: "body \<Rightarrow> exn + (int \<times> string option)" where
  "telemetry b =
     (case get_default (data b) \<lparr>rateLimit = Absent, search = Absent\<rparr> of
        None \<Rightarrow> Inl AttributeError
      | Some d \<Rightarrow>
         (case get_default (rateLimit d) \<lparr>remaining = Absent, resetAt = None\<rparr> of
            None \<Rightarrow> Inl AttributeError
          | Some rl \<Rightarrow>
             (case get_default (remaining rl) 5000 of
                None \<Rightarrow> Inl TypeError
              | Some rem \<Rightarrow> Inr (rem, resetAt rl))))"

definition rate_governor :: "config \<Rightarrow> reading \<Rightarrow> int \<Rightarrow> string option \<Rightarrow> state \<Rightarrow> state" where
  "rate_governor cfg rd rem reset s =
     (if rem < 500 then
        (case reset of
           None \<Rightarrow> safe_sleep 30 (rnd_reset rd) s
         | Some str \<Rightarrow>
            (case fromisoformat cfg (replace_Z str) of
               None \<Rightarrow> safe_sleep 30 (rnd_reset rd) s
             | Some reset_ts \<Rightarrow>
                (let sleep_seconds = reset_ts - clock rd + 5
                 in if sleep_seconds > 0
                    then sleep (max 0 sleep_seconds) (emit (Print (RateLimitLowMsg rem)) s)
                    else s)))
      else s)"

subsection \<open>Lines 215--246: the page and its records\<close>

definition page_fields :: "body \<Rightarrow> exn + (node option list \<times> bool \<times> string option)" where
  "page_fields b =
     (case get_default (data b) \<lparr>rateLimit = Absent, search = Absent\<rparr> of
        None \<Rightarrow> Inl AttributeError
      | Some d \<Rightarrow>
         (case get_default (search d) \<lparr>nodes = Absent, pageInfo = Absent\<rparr> of
            None \<Rightarrow> Inl AttributeError
          | Some sr \<Rightarrow>
             (case get_default (pageInfo sr) \<lparr>hasNextPage = Absent, endCursor = None\<rparr> of
                None \<Rightarrow> Inl AttributeError
              | Some pinfo \<Rightarrow>
                 (case get_default (nodes sr) [] of
                    None \<Rightarrow> Inl TypeError
                  | Some ns \<Rightarrow>
                     Inr (ns, get_default (hasNextPage pinfo) False = Some True, endCursor pinfo)))))"

definition str_of :: "string option \<Rightarrow> string" where
  "str_of v = (case v of None \<Rightarrow> ''None'' | Some s \<Rightarrow> s)"

definition owner_login :: "node \<Rightarrow> string option" where
  "owner_login n = (case n_owner n of None \<Rightarrow> None | Some ow \<Rightarrow> login ow)"

definition language_name :: "node \<Rightarrow> string option" where
  "language_name n = (case n_primaryLanguage n of None \<Rightarrow> None | Some l \<Rightarrow> lang_name l)"

definition make_row :: "node \<Rightarrow> int \<Rightarrow> crawl_row" where
  "make_row n dbid =
     \<lparr>r_repo_id = dbid,
      r_github_node_id = n_id n,
      r_owner = owner_login n,
      r_name = n_name n,
      r_full_name = str_of (owner_login n) @ ''/'' @ str_of (n_name n),
      r_url = n_url n,
      r_description = n_description n,
      r_language = language_name n,
      r_stargazerCount = (case n_stargazerCount n of None \<Rightarrow> 0 | Some c \<Rightarrow> c),
      r_updatedAt = n_updatedAt n\<rparr>"

text \<open>\<open>not dbid\<close> holds of \<open>None\<close> and of \<open>0\<close>.\<close>

definition falsy_id :: "int option \<Rightarrow> bool" where
  "falsy_id dbid = (case dbid of None \<Rightarrow> True | Some i \<Rightarrow> i = 0)"

text \<open>
  The \<open>for\<close> loop of lines 223--246, with the state it builds as accumulator: the
  list \<open>rows\<close> and the warnings printed so far.
\<close>

fun parse_nodes ::
  "node option list \<Rightarrow> crawl_row list \<times> event list \<Rightarrow> crawl_row list \<times> event list" where
  "parse_nodes [] acc = acc"
| "parse_nodes (None # ns) acc = parse_nodes ns acc"
| "parse_nodes (Some n # ns) (rows, out) =
     (case n_databaseId n of
        None \<Rightarrow> parse_nodes ns (rows, out @ [Print (MissingDatabaseIdMsg (n_id n))])
      | Some dbid \<Rightarrow>
         (if falsy_id (Some dbid)
          then parse_nodes ns (rows, out @ [Print (MissingDatabaseIdMsg (n_id n))])
          else parse_nodes ns (rows @ [make_row n dbid], out)))"

definition truthy_str :: "string option \<Rightarrow> bool" where
  "truthy_str v = (case v of None \<Rightarrow> False | Some s \<Rightarrow> s \<noteq> [])"

subsection \<open>Lines 248--272: ingestion, checkpoint, pause\<close>

text \<open>
  The three steps of a page that has records follow one another; an exception in one
  of them leaves the loop with the state reached.
\<close>

fun and_then :: "outcome \<Rightarrow> (state \<Rightarrow> outcome) \<Rightarrow> outcome" where
  "and_then (Continue s) f = f s"
| "and_then (Break s) f = Break s"
| "and_then (Raised e s) f = Raised e s"

definition ingest :: "reading \<Rightarrow> crawl_row list \<Rightarrow> state \<Rightarrow> outcome" where
  "ingest rd rows s =
     (let s0 = emit (Upsert rows) s
      in case upsert_repos_and_snapshots (upsert_ok rd) (today rd) (now_utc rd) rows (db s0) of
           Inl e \<Rightarrow> Raised e s0
         | Inr db' \<Rightarrow>
            (let s1 = emit CommitBatch (s0\<lparr>db := db'\<rparr>);
                 s2 = s1\<lparr>fetched := fetched s1 + int (length rows)\<rparr>
             in Continue (emit (Print (ProgressMsg (fetched s2))) s2)))"

definition save_checkpoint :: "config \<Rightarrow> reading \<Rightarrow> string option \<Rightarrow> state \<Rightarrow> outcome" where
  "save_checkpoint cfg rd cursor s =
     (case cursor of
        None \<Rightarrow> Continue s
      | Some c \<Rightarrow>
         (if truthy_str (Some c) then
            (case write_checkpoint (ckpt_ok rd) (ckpt_now rd) (checkpoint_key cfg) c (db s) of
               Inl e \<Rightarrow> Raised e s
             | Inr db' \<Rightarrow> Continue ((emit (CommitCheckpoint c) (s\<lparr>db := db'\<rparr>))\<lparr>after := Some c\<rparr>))
          else Continue s))"

definition finish_page :: "int \<Rightarrow> bool \<Rightarrow> reading \<Rightarrow> state \<Rightarrow> outcome" where
  "finish_page rem has_next rd s =
     (let s1 = s\<lparr>backoff_base := 1\<rparr>
      in if \<not> has_next then Break (emit (Print NoMorePagesMsg) s1)
         else if rem < 1000 then Continue (safe_sleep (1 / 2) (rnd_pause rd) s1)
         else Continue s1)"

definition ingest_page ::
  "config \<Rightarrow> reading \<Rightarrow> int \<Rightarrow> crawl_row list \<Rightarrow> bool \<Rightarrow> string option \<Rightarrow> state \<Rightarrow> outcome" where
  "ingest_page cfg rd rem rows has_next cursor s =
     (if rows \<noteq> [] then
        and_then (ingest rd rows s)
          (\<lambda>s1. and_then (save_checkpoint cfg rd cursor s1) (finish_page rem has_next rd))
      else Break (emit (Print NoNodesReturnedMsg) s))"

definition on_page :: "config \<Rightarrow> reading \<Rightarrow> body \<Rightarrow> state \<Rightarrow> outcome" where
  "on_page cfg rd b s =
     (case telemetry b of
        Inl e \<Rightarrow> Raised e s
      | Inr (rem, reset) \<Rightarrow>
         (let s1 = rate_governor cfg rd rem reset s
          in case page_fields b of
               Inl e \<Rightarrow> Raised e s1
             | Inr (ns, has_next, cursor) \<Rightarrow>
                (let (rows, out) = parse_nodes ns ([], []);
                     s2 = s1\<lparr>trace := trace s1 @ out\<rparr>
                 in ingest_page cfg rd rem rows has_next cursor s2)))"

definition truthy_errors :: "string list option \<Rightarrow> bool" where
  "truthy_errors v = (case v of None \<Rightarrow> False | Some es \<Rightarrow> es \<noteq> [])"

subsection \<open>Lines 174--272: the loop\<close>

definition iteration :: "config \<Rightarrow> reading \<Rightarrow> state \<Rightarrow> outcome" where
  "iteration cfg rd s =
     (let s0 = emit (Fetch (page_size cfg) (after s)) s
      in case fetch rd of
           NetworkError \<Rightarrow> Continue (backoff rd (emit (Print NetworkErrorMsg) s0))
         | Response status_code payload \<Rightarrow>
            (if status_code \<noteq> 200 then
               (let s1 = emit (Print (HttpMsg status_code)) s0
                in if retryable_status status_code then Continue (backoff rd s1)
                   else Continue (sleep 2 s1))
             else
               (case payload of
                  None \<Rightarrow> Raised JSONDecodeError s0
                | Some b \<Rightarrow>
                   (if truthy_errors (errors b)
                    then Continue (safe_sleep 2 (rnd_retry rd) (emit (Print GraphQLErrorsMsg) s0))
                    else on_page cfg rd b s0))))"

datatype run = Finished state | Crashed exn state | Pending state

text \<open>
  The \<open>while\<close> loop. \<open>Finished\<close> is the normal end (the line after the loop is
  reached), \<open>Crashed\<close> an exception leaving \<open>main\<close>, \<open>Pending\<close> a loop that is still
  running when the readings given are used up.
\<close>

fun crawl :: "config \<Rightarrow> reading list \<Rightarrow> state \<Rightarrow> run" where
  "crawl cfg [] s = (if fetched s < total cfg then Pending s else Finished s)"
| "crawl cfg (rd # rds) s =
     (if fetched s < total cfg then
        (case iteration cfg rd s of
           Continue s' \<Rightarrow> crawl cfg rds s'
         | Break s' \<Rightarrow> Finished s'
         | Raised e s' \<Rightarrow> Crashed e s')
      else Finished s)"

definition start :: "config \<Rightarrow> database \<Rightarrow> state" where
  "start cfg store =
     \<lparr>fetched = 0, after = read_checkpoint store (checkpoint_key cfg),
      backoff_base = 1, db = store, trace = []\<rparr>"

subsection \<open>Reading a run\<close>

fun run_state :: "run \<Rightarrow> state" where
  "run_state (Finished s) = s"
| "run_state (Crashed e s) = s"
| "run_state (Pending s) = s"

fun finished :: "run \<Rightarrow> bool" where
  "finished (Finished s) = True"
| "finished (Crashed e s) = False"
| "finished (Pending s) = False"


text \<open>The failures of lines 179--183 and 187--190, the ones that escalate the backoff.\<close>

definition retryable :: "reading \<Rightarrow> bool" where
  "retryable rd =
     (case fetch rd of
        NetworkError \<Rightarrow> True
      | Response status_code payload \<Rightarrow> status_code \<noteq> 200 \<and> retryable_status status_code)"

text \<open>
  \<open>committed c tr\<close> tells, after the events \<open>tr\<close>, whether a batch was committed since
  the last request (\<open>c\<close> is the answer before \<open>tr\<close>). \<open>ordered c tr\<close> holds when every
  checkpoint commit in \<open>tr\<close> comes at a moment where that is so.
\<close>

fun committed :: "bool \<Rightarrow> event list \<Rightarrow> bool" where
  "committed c [] = c"
| "committed c (Fetch first cursor # es) = committed False es"
| "committed c (CommitBatch # es) = committed True es"
| "committed c (Print m # es) = committed c es"
| "committed c (Sleep d # es) = committed c es"
| "committed c (Upsert rows # es) = committed c es"
| "committed c (CommitCheckpoint v # es) = committed c es"

fun ordered :: "bool \<Rightarrow> event list \<Rightarrow> bool" where
  "ordered c [] = True"
| "ordered c (Fetch first cursor # es) = ordered False es"
| "ordered c (CommitBatch # es) = ordered True es"
| "ordered c (CommitCheckpoint v # es) = (c \<and> ordered c es)"
| "ordered c (Print m # es) = ordered c es"
| "ordered c (Sleep d # es) = ordered c es"
| "ordered c (Upsert rows # es) = ordered c es"

definition nonzero_upserts :: "event list \<Rightarrow> bool" where
  "nonzero_upserts tr = (\<forall>rows. Upsert rows \<in> set tr \<longrightarrow> (\<forall>r\<in>set rows. r_repo_id r \<noteq> 0))"



subsection \<open>Concrete inputs\<close>

definition example_config :: config where
  "example_config =
     \<lparr>total = 250, page_size_arg = 100, checkpoint_key = ''global_search_cursor'',
      fromisoformat = (\<lambda>str. if str = ''2024-01-01T00:00:00+00:00'' then Some 1704067200 else None)\<rparr>"

definition example_reading :: "fetch_result \<Rightarrow> reading" where
  "example_reading f =
     \<lparr>fetch = f, rnd_retry = 1 / 2, rnd_reset = 1 / 2, rnd_pause = 1 / 2,
      clock = 1704067000, today = 0, now_utc = 100,
      upsert_ok = True, ckpt_ok = True, ckpt_now = 101\<rparr>"

definition example_page :: "rate_limit field \<Rightarrow> node option list \<Rightarrow> bool \<Rightarrow> body" where
  "example_page rl ns has_more =
     \<lparr>errors = None,
      data = Val \<lparr>rateLimit = rl,
                  search = Val \<lparr>nodes = Val ns,
                                pageInfo = Val \<lparr>hasNextPage = Val has_more, endCursor = Some ''Y3Vyc29yOjE=''\<rparr>\<rparr>\<rparr>\<rparr>"

definition plenty :: "rate_limit field" where
  "plenty = Val \<lparr>remaining = Val 4000, resetAt = Some ''2024-01-01T00:00:00Z''\<rparr>"

definition scarce :: "string option \<Rightarrow> rate_limit field" where
  "scarce reset = Val \<lparr>remaining = Val 400, resetAt = reset\<rparr>"

definition example_state :: state where
  "example_state =
     \<lparr>fetched = 0, after = None, backoff_base = 1,
      db = \<lparr>repos = Map.empty, repo_stars_history = Map.empty, crawl_checkpoints = Map.empty\<rparr>,
      trace = []\<rparr>"


definition example_node :: node where
  "example_node =
     \<lparr>n_id = Some ''R_7'', n_databaseId = Some 7, n_name = Some ''crawler'',
      n_owner = Some \<lparr>login = Some ''dev''\<rparr>, n_url = Some ''https://github.com/dev/crawler'',
      n_description = None, n_updatedAt = Some ''2024-01-01T00:00:00Z'',
      n_stargazerCount = Some 3, n_primaryLanguage = None\<rparr>"

definition example_row :: crawl_row where
  "example_row = make_row example_node 7"

definition empty_store :: database where
  "empty_store = \<lparr>repos = Map.empty, repo_stars_history = Map.empty, crawl_checkpoints = Map.empty\<rparr>"



definition example_nodes :: "node option list" where
  "example_nodes = [Some (example_node\<lparr>n_id := Some ''R_0'', n_databaseId := Some 0\<rparr>), None, Some example_node]"

section \<open>Properties\<close>

subsection \<open>The normalizer\<close>



subsection \<open>The ingestion sink\<close>













subsection \<open>Entries of a page\<close>




subsection \<open>One pass of the loop, case by case\<close>

lemma iteration_cases [case_names Net Retry Client BadJSON Errors Telemetry Fields Page]:
  fixes cfg rd s
  defines "s0 \<equiv> emit (Fetch (page_size cfg) (after s)) s"
  obtains
    "fetch rd = NetworkError"
      "iteration cfg rd s = Continue (backoff rd (emit (Print NetworkErrorMsg) s0))"
  | code payload where "fetch rd = Response code payload" "code \<noteq> 200" "retryable_status code"
      "iteration cfg rd s = Continue (backoff rd (emit (Print (HttpMsg code)) s0))"
  | code payload where "fetch rd = Response code payload" "code \<noteq> 200" "\<not> retryable_status code"
      "iteration cfg rd s = Continue (sleep 2 (emit (Print (HttpMsg code)) s0))"
  | "fetch rd = Response 200 None" "iteration cfg rd s = Raised JSONDecodeError s0"
  | b where "fetch rd = Response 200 (Some b)" "truthy_errors (errors b)"
      "iteration cfg rd s = Continue (safe_sleep 2 (rnd_retry rd) (emit (Print GraphQLErrorsMsg) s0))"
  | b e where "fetch rd = Response 200 (Some b)" "\<not> truthy_errors (errors b)"
      "telemetry b = Inl e" "iteration cfg rd s = Raised e s0"
  | b rem reset e where "fetch rd = Response 200 (Some b)" "\<not> truthy_errors (errors b)"
      "telemetry b = Inr (rem, reset)" "page_fields b = Inl e"
      "iteration cfg rd s = Raised e (rate_governor cfg rd rem reset s0)"
  | b rem reset ns has_next cursor where "fetch rd = Response 200 (Some b)"
      "\<not> truthy_errors (errors b)"
      "telemetry b = Inr (rem, reset)" "page_fields b = Inr (ns, has_next, cursor)"
      "iteration cfg rd s =
         ingest_page cfg rd rem (fst (parse_nodes ns ([], []))) has_next cursor
           ((rate_governor cfg rd rem reset s0)
              \<lparr>trace := trace (rate_governor cfg rd rem reset s0) @ snd (parse_nodes ns ([], []))\<rparr>)"
proof (cases "fetch rd")
  case NetworkError
  then show ?thesis using that(1) by (simp add: iteration_def s0_def)
next
  case (Response code payload)
  show ?thesis
  proof (cases "code = 200")
    case False
    then show ?thesis
      using Response that(2) [of code payload] that(3) [of code payload]
      by (cases "retryable_status code") (simp_all add: iteration_def s0_def Let_def)
  next
    case True
    show ?thesis
    proof (cases payload)
      case None
      then show ?thesis using True Response that(4) by (simp add: iteration_def s0_def)
    next
      case (Some b)
      note fb = Response True Some
      show ?thesis
      proof (cases "truthy_errors (errors b)")
        case True
        then show ?thesis using fb that(5) [of b] by (simp add: iteration_def s0_def)
      next
        case False
        note ne = False
        show ?thesis
        proof (cases "telemetry b")
          case (Inl e)
          then show ?thesis using fb ne that(6) [of b e]
            by (simp add: iteration_def s0_def on_page_def)
        next
          case (Inr tel)
          obtain rem reset where tel: "tel = (rem, reset)" by (cases tel)
          show ?thesis
          proof (cases "page_fields b")
            case (Inl e)
            then show ?thesis using fb ne Inr tel that(7) [of b rem reset e]
              by (simp add: iteration_def s0_def on_page_def)
          next
            case (Inr pf)
            obtain ns has_next cursor where pf: "pf = (ns, has_next, cursor)" by (cases pf)
            show ?thesis
              using fb ne \<open>telemetry b = Inr tel\<close> tel Inr pf that(8) [of b rem reset ns has_next cursor]
              by (simp add: iteration_def s0_def on_page_def Let_def split: prod.splits)
          qed
        qed
      qed
    qed
  qed
qed

lemma crawl_invariant:
  assumes step: "\<And>rd s. P s \<Longrightarrow> P (state_of (iteration cfg rd s))"
  shows "P s \<Longrightarrow> P (run_state (crawl cfg rds s))"
proof (induction rds arbitrary: s)
  case Nil
  then show ?case by simp
next
  case (Cons rd rds)
  show ?case
  proof (cases "fetched s < total cfg")
    case False
    then show ?thesis using Cons.prems by simp
  next
    case True
    have P': "P (state_of (iteration cfg rd s))" using step Cons.prems by blast
    show ?thesis
    proof (cases "iteration cfg rd s")
      case (Continue s')
      then show ?thesis using True P' Cons.IH [of s'] by simp
    next
      case (Break s')
      then show ?thesis using True P' by simp
    next
      case (Raised e s')
      then show ?thesis using True P' by simp
    qed
  qed
qed

lemma parse_nodes_ids:
  "\<forall>r\<in>set (fst acc). r_repo_id r \<noteq> 0 \<Longrightarrow> \<forall>r\<in>set (fst (parse_nodes ns acc)). r_repo_id r \<noteq> 0"
  by (induction ns acc rule: parse_nodes.induct)
     (auto simp: falsy_id_def make_row_def split: option.splits)

lemma parse_nodes_prints:
  "\<forall>e\<in>set (snd acc). \<exists>m. e = Print m \<Longrightarrow> \<forall>e\<in>set (snd (parse_nodes ns acc)). \<exists>m. e = Print m"
  by (induction ns acc rule: parse_nodes.induct) (auto split: option.splits)

lemma governor_frame:
  "db (rate_governor cfg rd rem reset s) = db s"
  "after (rate_governor cfg rd rem reset s) = after s"
  "fetched (rate_governor cfg rd rem reset s) = fetched s"
  "backoff_base (rate_governor cfg rd rem reset s) = backoff_base s"
  by (simp_all add: rate_governor_def emit_def sleep_def safe_sleep_def Let_def split: option.splits)

lemma governor_events:
  "\<exists>ev. trace (rate_governor cfg rd rem reset s) = trace s @ ev
        \<and> (\<forall>e\<in>set ev. (\<exists>m. e = Print m) \<or> (\<exists>d. e = Sleep d))"
  by (simp add: rate_governor_def emit_def sleep_def safe_sleep_def Let_def split: option.splits)

lemma governor_upserts:
  "nonzero_upserts (trace s) \<Longrightarrow> nonzero_upserts (trace (rate_governor cfg rd rem reset s))"
  using governor_events [of cfg rd rem reset s] by (auto simp: nonzero_upserts_def)

lemma ingest_page_upserts:
  assumes "nonzero_upserts (trace s)" and "\<forall>r\<in>set rows. r_repo_id r \<noteq> 0"
  shows "nonzero_upserts (trace (state_of (ingest_page cfg rd rem rows has_next cursor s)))"
  using assms
  by (auto simp: nonzero_upserts_def ingest_page_def ingest_def save_checkpoint_def finish_page_def
      write_checkpoint_def upsert_repos_and_snapshots_def emit_def sleep_def safe_sleep_def Let_def
      split: option.splits)

lemma iteration_upserts:
  assumes "nonzero_upserts (trace s)"
  shows "nonzero_upserts (trace (state_of (iteration cfg rd s)))"
proof (cases rule: iteration_cases [of rd cfg s])
  case Net
  then show ?thesis using assms
    by (auto simp: nonzero_upserts_def backoff_def emit_def sleep_def safe_sleep_def Let_def)
next
  case (Retry code payload)
  then show ?thesis using assms
    by (auto simp: nonzero_upserts_def backoff_def emit_def sleep_def safe_sleep_def Let_def)
next
  case (Client code payload)
  then show ?thesis using assms
    by (auto simp: nonzero_upserts_def emit_def sleep_def)
next
  case BadJSON
  then show ?thesis using assms by (auto simp: nonzero_upserts_def emit_def)
next
  case (Errors b)
  then show ?thesis using assms
    by (auto simp: nonzero_upserts_def emit_def sleep_def safe_sleep_def)
next
  case (Telemetry b e)
  then show ?thesis using assms by (auto simp: nonzero_upserts_def emit_def)
next
  case (Fields b rem reset e)
  have "nonzero_upserts (trace (emit (Fetch (page_size cfg) (after s)) s))"
    using assms by (auto simp: nonzero_upserts_def emit_def)
  then show ?thesis using Fields governor_upserts by simp
next
  case (Page b rem reset ns has_next cursor)
  let ?s0 = "emit (Fetch (page_size cfg) (after s)) s"
  let ?g = "rate_governor cfg rd rem reset ?s0"
  have "nonzero_upserts (trace ?s0)"
    using assms by (auto simp: nonzero_upserts_def emit_def)
  then have g: "nonzero_upserts (trace ?g)" by (rule governor_upserts)
  have "\<forall>e\<in>set (snd (parse_nodes ns ([], []))). \<exists>m. e = Print m"
    by (rule parse_nodes_prints) simp
  then have "nonzero_upserts (trace (?g\<lparr>trace := trace ?g @ snd (parse_nodes ns ([], []))\<rparr>))"
    using g by (auto simp: nonzero_upserts_def)
  moreover have "\<forall>r\<in>set (fst (parse_nodes ns ([], []))). r_repo_id r \<noteq> 0"
    by (rule parse_nodes_ids) simp
  ultimately show ?thesis using Page ingest_page_upserts by simp
qed

subsection \<open>A run on concrete inputs\<close>

lemmas run_defs =
  iteration_def on_page_def ingest_page_def ingest_def save_checkpoint_def finish_page_def
  write_checkpoint_def upsert_repos_and_snapshots_def rate_governor_def telemetry_def
  page_fields_def backoff_def emit_def sleep_def safe_sleep_def truthy_errors_def truthy_str_def
  falsy_id_def retryable_status_def page_size_def start_def read_checkpoint_def

lemmas example_defs =
  example_config_def example_reading_def example_page_def example_state_def example_nodes_def
  example_node_def example_row_def empty_store_def plenty_def scarce_def

lemma example_run_trace:
  "trace (run_state (crawl example_config
       [example_reading (Response 200 (Some (example_page plenty example_nodes False)))]
       (start example_config empty_store)))
   = [Fetch 100 None, Print (MissingDatabaseIdMsg (Some ''R_0'')), Upsert [example_row],
      CommitBatch, Print (ProgressMsg 1), CommitCheckpoint ''Y3Vyc29yOjE='', Print NoMorePagesMsg]"
  by (simp add: run_defs example_defs Let_def)

subsection \<open>Identifier zero\<close>

text \<open>
  C8. An entry whose \<open>databaseId\<close> is 0 is skipped with the warning of a missing
  identifier, as an entry without \<open>databaseId\<close> is. So no record of a page has
  \<open>repo_id\<close> 0, and in every run of the loop from its start no call of
  \<open>upsert_repos_and_snapshots\<close> is given a record with \<open>repo_id\<close> 0.
\<close>

theorem zero_id_discarded:
  "parse_nodes (Some (n\<lparr>n_databaseId := Some 0\<rparr>) # ns) (rows, out)
     = parse_nodes ns (rows, out @ [Print (MissingDatabaseIdMsg (n_id n))])
   \<and> parse_nodes (Some (n\<lparr>n_databaseId := Some 0\<rparr>) # ns) (rows, out)
     = parse_nodes (Some (n\<lparr>n_databaseId := None\<rparr>) # ns) (rows, out)
   \<and> (\<forall>r\<in>set (fst (parse_nodes ns ([], []))). r_repo_id r \<noteq> 0)
   \<and> (\<forall>batch. Upsert batch \<in> set (trace (run_state (crawl cfg rds (start cfg store))))
         \<longrightarrow> (\<forall>r\<in>set batch. r_repo_id r \<noteq> 0))"
proof -
  have "nonzero_upserts (trace (run_state (crawl cfg rds (start cfg store))))"
  proof (rule crawl_invariant [where P = "\<lambda>s. nonzero_upserts (trace s)"])
    show "nonzero_upserts (trace (start cfg store))"
      by (simp add: nonzero_upserts_def start_def)
  qed (rule iteration_upserts)
  moreover have "\<forall>r\<in>set (fst (parse_nodes ns ([], []))). r_repo_id r \<noteq> 0"
    by (rule parse_nodes_ids) simp
  ultimately show ?thesis
    by (simp add: falsy_id_def nonzero_upserts_def)
qed

theorem zero_id_discarded_witness:
  "Upsert [example_row] \<in> set (trace (run_state (crawl example_config
       [example_reading (Response 200 (Some (example_page plenty example_nodes False)))]
       (start example_config empty_store))))
   \<and> r_repo_id example_row \<noteq> 0"
proof -
  let ?run = "run_state (crawl example_config
       [example_reading (Response 200 (Some (example_page plenty example_nodes False)))]
       (start example_config empty_store))"
  have sent: "Upsert [example_row] \<in> set (trace ?run)"
    using example_run_trace by simp
  have "\<forall>batch. Upsert batch \<in> set (trace ?run) \<longrightarrow> (\<forall>r\<in>set batch. r_repo_id r \<noteq> 0)"
    using zero_id_discarded [where cfg = example_config and store = empty_store
        and rds = "[example_reading (Response 200 (Some (example_page plenty example_nodes False)))]"]
    by blast
  with sent show ?thesis by simp
qed

subsection \<open>A status that is neither 200 nor 502, 503, 504, 429\<close>

text \<open>
  C1, as the code has it. After such a status the loop prints it, sleeps 2 time units
  (no jitter) and goes back to the head of the loop: nothing else of the state changes,
  the backoff and the cursor included, no exception leaves the loop, and the next pass
  fetches again.
\<close>

theorem client_error_retried:
  assumes "fetch rd = Response code payload" and "code \<noteq> 200" and "\<not> retryable_status code"
  shows "iteration cfg rd s =
           Continue (s\<lparr>trace := trace s @ [Fetch (page_size cfg) (after s), Print (HttpMsg code), Sleep 2]\<rparr>)
         \<and> (fetched s < total cfg \<longrightarrow>
              crawl cfg (rd # rds) s =
                crawl cfg rds
                  (s\<lparr>trace := trace s @ [Fetch (page_size cfg) (after s), Print (HttpMsg code), Sleep 2]\<rparr>))"
  using assms by (simp add: iteration_def emit_def sleep_def)

theorem client_error_retried_witness:
  "iteration example_config (example_reading (Response 404 None)) example_state =
     Continue (example_state\<lparr>trace := [Fetch 100 None, Print (HttpMsg 404), Sleep 2]\<rparr>)
   \<and> crawl example_config [example_reading (Response 404 None)] example_state =
       Pending (example_state\<lparr>trace := [Fetch 100 None, Print (HttpMsg 404), Sleep 2]\<rparr>)"
  using client_error_retried [of "example_reading (Response 404 None)" 404 None example_config
      example_state "[]"]
  by (simp add: example_reading_def retryable_status_def example_config_def example_state_def
      page_size_def)

text \<open>
  C1 as worded fails: after a 404 the run below fetches a second time, ingests that
  page and ends normally.
\<close>

theorem client_error_fetched_again:
  "finished (crawl example_config
       [example_reading (Response 404 None),
        example_reading (Response 200 (Some (example_page plenty example_nodes False)))]
       (start example_config empty_store))
   \<and> trace (run_state (crawl example_config
       [example_reading (Response 404 None),
        example_reading (Response 200 (Some (example_page plenty example_nodes False)))]
       (start example_config empty_store)))
     = [Fetch 100 None, Print (HttpMsg 404), Sleep 2,
        Fetch 100 None, Print (MissingDatabaseIdMsg (Some ''R_0'')), Upsert [example_row],
        CommitBatch, Print (ProgressMsg 1), CommitCheckpoint ''Y3Vyc29yOjE='', Print NoMorePagesMsg]"
  by (simp add: run_defs example_defs Let_def)

subsection \<open>Backoff\<close>

lemma retryable_step:
  assumes "retryable rd"
  shows "\<exists>m. iteration cfg rd s =
           Continue (backoff rd (emit (Print m) (emit (Fetch (page_size cfg) (after s)) s)))"
proof (cases "fetch rd")
  case NetworkError
  then show ?thesis by (auto simp: iteration_def)
next
  case (Response code payload)
  then show ?thesis using assms by (auto simp: iteration_def retryable_def Let_def)
qed

lemma backoff_fields:
  "backoff_base (backoff rd s) = min (backoff_base s * 2) 60"
  "fetched (backoff rd s) = fetched s"
  "trace (backoff rd s) = trace s @ [Sleep (backoff_base s + rnd_retry rd * (3 / 10))]"
  by (simp_all add: backoff_def safe_sleep_def sleep_def emit_def Let_def)

lemma retryable_effect:
  assumes "retryable rd"
  shows "\<exists>s'. iteration cfg rd s = Continue s'
           \<and> backoff_base s' = min (backoff_base s * 2) 60
           \<and> fetched s' = fetched s
           \<and> last (trace s') = Sleep (backoff_base s + rnd_retry rd * (3 / 10))"
proof -
  obtain m where "iteration cfg rd s =
      Continue (backoff rd (emit (Print m) (emit (Fetch (page_size cfg) (after s)) s)))"
    using retryable_step [OF assms] by blast
  then show ?thesis by (simp add: backoff_fields emit_def)
qed

lemma double_capped: "min (min ((2::rat) ^ j) 60 * 2) 60 = min (2 ^ Suc j) 60"
  by (simp add: min_def)

lemma streak:
  assumes "\<forall>r\<in>set rds. retryable r" and "fetched s < total cfg"
    and "backoff_base s = min (2 ^ j) 60"
  shows "\<exists>s'. crawl cfg (rds @ rest) s = crawl cfg rest s'
           \<and> fetched s' = fetched s \<and> backoff_base s' = min (2 ^ (j + length rds)) 60"
  using assms
proof (induction rds arbitrary: s j)
  case Nil
  then show ?case by auto
next
  case (Cons r rds)
  obtain s1 where s1: "iteration cfg r s = Continue s1"
    "backoff_base s1 = min (backoff_base s * 2) 60" "fetched s1 = fetched s"
    using retryable_effect [of r cfg s] Cons.prems(1) by auto
  have b1: "backoff_base s1 = min (2 ^ Suc j) 60"
    using s1(2) Cons.prems(3) by (simp only: double_capped)
  obtain s' where "crawl cfg (rds @ rest) s1 = crawl cfg rest s'"
    "fetched s' = fetched s1" "backoff_base s' = min (2 ^ (Suc j + length rds)) 60"
    using Cons.IH [of s1 "Suc j"] Cons.prems(1,2) s1(3) b1 by auto
  then show ?case using s1 Cons.prems(2) by auto
qed

lemma page_resets_backoff:
  assumes "ingest_page cfg rd rem rows has_next cursor s = Continue s'"
  shows "backoff_base s' = 1"
  using assms
  by (auto simp: ingest_page_def ingest_def save_checkpoint_def finish_page_def
      write_checkpoint_def upsert_repos_and_snapshots_def emit_def sleep_def safe_sleep_def Let_def
      split: option.splits if_splits)

text \<open>
  C3. Start where the backoff is at its base 1 (the start of the run, or after a page
  that was ingested). If the \<open>k\<close> passes that follow all end in a network error or a
  502, 503, 504 or 429, and the next pass does too, the loop is still running after
  it, and the last thing it did was to sleep \<open>min (1 * 2 ^ k) 60\<close> plus three tenths of
  the random draw; the draw being in \<open>[0, 1)\<close>, that jitter is in \<open>[0, 3/10)\<close>. And a pass
  that got a page and goes on leaves the backoff at 1.
\<close>

theorem backoff_delay:
  assumes "\<forall>r\<in>set rds. retryable r" and "retryable rd"
    and "backoff_base s = 1" and "fetched s < total cfg"
  shows "(\<exists>s'. crawl cfg (rds @ [rd]) s = Pending s'
            \<and> last (trace s') = Sleep (min (1 * 2 ^ length rds) 60 + rnd_retry rd * (3 / 10)))
         \<and> (0 \<le> rnd_retry rd \<and> rnd_retry rd < 1 \<longrightarrow>
              0 \<le> rnd_retry rd * (3 / 10) \<and> rnd_retry rd * (3 / 10) < 3 / 10)
         \<and> (fetch rd' = Response 200 (Some b) \<and> \<not> truthy_errors (errors b)
              \<and> iteration cfg rd' s0 = Continue s1 \<longrightarrow> backoff_base s1 = 1)"
proof -
  obtain sk where sk: "crawl cfg (rds @ [rd]) s = crawl cfg [rd] sk"
    "fetched sk = fetched s" "backoff_base sk = min (2 ^ (0 + length rds)) 60"
    using streak [of rds s cfg 0 "[rd]"] assms by auto
  obtain s' where s': "iteration cfg rd sk = Continue s'" "fetched s' = fetched sk"
    "last (trace s') = Sleep (backoff_base sk + rnd_retry rd * (3 / 10))"
    using retryable_effect [OF assms(2), of cfg sk] by auto
  have first: "crawl cfg (rds @ [rd]) s = Pending s'"
    using sk s' assms(4) by simp
  have reset: "backoff_base s1 = 1"
    if "fetch rd' = Response 200 (Some b)" "\<not> truthy_errors (errors b)"
      "iteration cfg rd' s0 = Continue s1"
    using that by (cases rule: iteration_cases [of rd' cfg s0]) (auto dest: page_resets_backoff)
  show ?thesis using first s'(3) sk(3) reset by auto
qed

theorem backoff_delay_witness:
  "retryable (example_reading NetworkError)
   \<and> retryable (example_reading (Response 503 None))
   \<and> retryable (example_reading (Response 429 None))
   \<and> backoff_base example_state = 1
   \<and> fetched example_state < total example_config
   \<and> last (trace (run_state (crawl example_config
         [example_reading NetworkError, example_reading (Response 503 None),
          example_reading (Response 429 None)] example_state))) = Sleep (83 / 20)"
proof -
  have r: "\<forall>r\<in>set [example_reading NetworkError, example_reading (Response 503 None)]. retryable r"
    "retryable (example_reading (Response 429 None))"
    by (simp_all add: retryable_def example_reading_def retryable_status_def)
  have s: "backoff_base example_state = 1" "fetched example_state < total example_config"
    by (simp_all add: example_state_def example_config_def)
  obtain s' where
    "crawl example_config
       ([example_reading NetworkError, example_reading (Response 503 None)]
        @ [example_reading (Response 429 None)]) example_state = Pending s'"
    "last (trace s') = Sleep (min (1 * 2 ^ length [example_reading NetworkError,
        example_reading (Response 503 None)]) 60
        + rnd_retry (example_reading (Response 429 None)) * (3 / 10))"
    using backoff_delay [OF r s] by blast
  then have "last (trace (run_state (crawl example_config
         [example_reading NetworkError, example_reading (Response 503 None),
          example_reading (Response 429 None)] example_state))) = Sleep (83 / 20)"
    by (simp add: example_reading_def)
  then show ?thesis using r s by simp
qed

subsection \<open>The quota\<close>













subsection \<open>Checkpoint after commit\<close>

lemma committed_append: "committed c (xs @ ys) = committed (committed c xs) ys"
  by (induction c xs rule: committed.induct) simp_all

lemma ordered_append: "ordered c (xs @ ys) = (ordered c xs \<and> ordered (committed c xs) ys)"
  by (induction c xs rule: ordered.induct) auto

lemma quiet_ordered:
  assumes "\<forall>e\<in>set ev. (\<exists>m. e = Print m) \<or> (\<exists>d. e = Sleep d)"
  shows "ordered c ev \<and> committed c ev = c"
  using assms by (induction ev) auto

lemma ordered_rejects_checkpoint_without_commit:
  "\<not> ordered False [Fetch 100 None, Upsert [example_row], CommitCheckpoint ''Y3Vyc29yOjE='']"
  by simp

lemma governor_ordered:
  assumes "ordered c (trace s)"
  shows "ordered c (trace (rate_governor cfg rd rem reset s))"
proof -
  obtain ev where ev: "trace (rate_governor cfg rd rem reset s) = trace s @ ev"
    "\<forall>e\<in>set ev. (\<exists>m. e = Print m) \<or> (\<exists>d. e = Sleep d)"
    using governor_events by blast
  show ?thesis using assms ev(1) quiet_ordered [OF ev(2)] by (simp add: ordered_append)
qed

lemma ingest_page_ordered:
  assumes "ordered c (trace s)"
  shows "ordered c (trace (state_of (ingest_page cfg rd rem rows has_next cursor s)))"
  using assms
  by (auto simp: ingest_page_def ingest_def save_checkpoint_def finish_page_def
      write_checkpoint_def upsert_repos_and_snapshots_def emit_def sleep_def safe_sleep_def Let_def
      ordered_append committed_append
      split: option.splits)

lemma iteration_ordered:
  assumes "ordered c (trace s)"
  shows "ordered c (trace (state_of (iteration cfg rd s)))"
proof -
  let ?s0 = "emit (Fetch (page_size cfg) (after s)) s"
  have s0: "ordered c (trace ?s0)"
    using assms by (simp add: emit_def ordered_append)
  show ?thesis
  proof (cases rule: iteration_cases [of rd cfg s])
    case Net
    then show ?thesis using s0
      by (simp add: backoff_def emit_def sleep_def safe_sleep_def Let_def ordered_append)
  next
    case (Retry code payload)
    then show ?thesis using s0
      by (simp add: backoff_def emit_def sleep_def safe_sleep_def Let_def ordered_append)
  next
    case (Client code payload)
    then show ?thesis using s0 by (simp add: emit_def sleep_def ordered_append)
  next
    case BadJSON
    then show ?thesis using s0 by simp
  next
    case (Errors b)
    then show ?thesis using s0 by (simp add: emit_def sleep_def safe_sleep_def ordered_append)
  next
    case (Telemetry b e)
    then show ?thesis using s0 by simp
  next
    case (Fields b rem reset e)
    then show ?thesis using governor_ordered [OF s0] by simp
  next
    case (Page b rem reset ns has_next cursor)
    let ?g = "rate_governor cfg rd rem reset ?s0"
    have "\<forall>e\<in>set (snd (parse_nodes ns ([], []))). \<exists>m. e = Print m"
      by (rule parse_nodes_prints) simp
    then have "\<forall>e\<in>set (snd (parse_nodes ns ([], []))). (\<exists>m. e = Print m) \<or> (\<exists>d. e = Sleep d)"
      by blast
    then have "ordered c (trace (?g\<lparr>trace := trace ?g @ snd (parse_nodes ns ([], []))\<rparr>))"
      using governor_ordered [OF s0, of cfg rd rem reset] quiet_ordered
      by (simp add: ordered_append)
    then show ?thesis using Page(5) ingest_page_ordered by simp
  qed
qed

lemma ingest_page_checkpoint:
  "(crawl_checkpoints (db (state_of (ingest_page cfg rd rem rows has_next cursor s)))
      = crawl_checkpoints (db s)
    \<and> after (state_of (ingest_page cfg rd rem rows has_next cursor s)) = after s)
   \<or> (\<exists>c. cursor = Some c \<and> rows \<noteq> [] \<and> upsert_ok rd
        \<and> repos (db (state_of (ingest_page cfg rd rem rows has_next cursor s)))
            = fold (upsert_repo (now_utc rd)) rows (repos (db s))
        \<and> repo_stars_history (db (state_of (ingest_page cfg rd rem rows has_next cursor s)))
            = fold (upsert_snapshot (today rd)) rows (repo_stars_history (db s))
        \<and> after (state_of (ingest_page cfg rd rem rows has_next cursor s)) = Some c
        \<and> crawl_checkpoints (db (state_of (ingest_page cfg rd rem rows has_next cursor s)))
            = (crawl_checkpoints (db s))(checkpoint_key cfg \<mapsto> (c, ckpt_now rd)))"
  by (auto simp: ingest_page_def ingest_def save_checkpoint_def finish_page_def
      write_checkpoint_def upsert_repos_and_snapshots_def emit_def sleep_def safe_sleep_def Let_def
      split: option.splits)

lemma iteration_checkpoint:
  "(crawl_checkpoints (db (state_of (iteration cfg rd s))) = crawl_checkpoints (db s)
    \<and> after (state_of (iteration cfg rd s)) = after s)
   \<or> (\<exists>b ns has_next c. fetch rd = Response 200 (Some b)
        \<and> page_fields b = Inr (ns, has_next, Some c)
        \<and> fst (parse_nodes ns ([], [])) \<noteq> [] \<and> upsert_ok rd
        \<and> repos (db (state_of (iteration cfg rd s)))
            = fold (upsert_repo (now_utc rd)) (fst (parse_nodes ns ([], []))) (repos (db s))
        \<and> repo_stars_history (db (state_of (iteration cfg rd s)))
            = fold (upsert_snapshot (today rd)) (fst (parse_nodes ns ([], [])))
                (repo_stars_history (db s))
        \<and> after (state_of (iteration cfg rd s)) = Some c
        \<and> crawl_checkpoints (db (state_of (iteration cfg rd s)))
            = (crawl_checkpoints (db s))(checkpoint_key cfg \<mapsto> (c, ckpt_now rd)))"
proof (cases rule: iteration_cases [of rd cfg s])
  case Net
  then show ?thesis by (simp add: backoff_def emit_def sleep_def safe_sleep_def Let_def)
next
  case (Retry code payload)
  then show ?thesis by (simp add: backoff_def emit_def sleep_def safe_sleep_def Let_def)
next
  case (Client code payload)
  then show ?thesis by (simp add: emit_def sleep_def)
next
  case BadJSON
  then show ?thesis by (simp add: emit_def)
next
  case (Errors b)
  then show ?thesis by (simp add: emit_def sleep_def safe_sleep_def)
next
  case (Telemetry b e)
  then show ?thesis by (simp add: emit_def)
next
  case (Fields b rem reset e)
  then show ?thesis by (simp add: governor_frame emit_def)
next
  case (Page b rem reset ns has_next cursor)
  let ?s0 = "emit (Fetch (page_size cfg) (after s)) s"
  let ?g = "rate_governor cfg rd rem reset ?s0"
  let ?s2 = "?g\<lparr>trace := trace ?g @ snd (parse_nodes ns ([], []))\<rparr>"
  have frame: "db ?s2 = db s" "after ?s2 = after s"
    by (simp_all add: governor_frame emit_def)
  show ?thesis
    using ingest_page_checkpoint [of cfg rd rem "fst (parse_nodes ns ([], []))" has_next cursor ?s2]
      Page(1,4,5) frame
    by auto
qed

text \<open>
  C2. In every run of the loop from its start, each commit of a checkpoint comes after
  the commit of a batch made since the last request, that is, in the same pass and
  so for the same page. And a pass either
  leaves the stored checkpoint and the cursor as they were, or it got a page with a
  cursor and with records, the storage engine accepted the batch, the catalog and
  the snapshots hold that batch, and checkpoint and cursor are that page's cursor.
  In particular a pass whose batch is refused moves neither.
\<close>

theorem checkpoint_after_commit:
  "ordered False (trace (run_state (crawl cfg rds (start cfg store))))
   \<and> ((crawl_checkpoints (db (state_of (iteration cfg rd s))) = crawl_checkpoints (db s)
        \<and> after (state_of (iteration cfg rd s)) = after s)
      \<or> (\<exists>b ns has_next c. fetch rd = Response 200 (Some b)
           \<and> page_fields b = Inr (ns, has_next, Some c)
           \<and> fst (parse_nodes ns ([], [])) \<noteq> [] \<and> upsert_ok rd
           \<and> repos (db (state_of (iteration cfg rd s)))
               = fold (upsert_repo (now_utc rd)) (fst (parse_nodes ns ([], []))) (repos (db s))
           \<and> repo_stars_history (db (state_of (iteration cfg rd s)))
               = fold (upsert_snapshot (today rd)) (fst (parse_nodes ns ([], [])))
                   (repo_stars_history (db s))
           \<and> after (state_of (iteration cfg rd s)) = Some c
           \<and> crawl_checkpoints (db (state_of (iteration cfg rd s)))
               = (crawl_checkpoints (db s))(checkpoint_key cfg \<mapsto> (c, ckpt_now rd))))
   \<and> (\<not> upsert_ok rd \<longrightarrow>
        crawl_checkpoints (db (state_of (iteration cfg rd s))) = crawl_checkpoints (db s)
        \<and> after (state_of (iteration cfg rd s)) = after s)"
proof -
  have "ordered False (trace (run_state (crawl cfg rds (start cfg store))))"
  proof (rule crawl_invariant [where P = "\<lambda>s. ordered False (trace s)"])
    show "ordered False (trace (start cfg store))" by (simp add: start_def)
  qed (rule iteration_ordered)
  then show ?thesis using iteration_checkpoint [of cfg rd s] by blast
qed

theorem checkpoint_after_commit_witness:
  "\<not> upsert_ok ((example_reading (Response 200 (Some (example_page plenty example_nodes True))))
        \<lparr>upsert_ok := False\<rparr>)
   \<and> crawl_checkpoints (db (state_of (iteration example_config
         ((example_reading (Response 200 (Some (example_page plenty example_nodes True))))
            \<lparr>upsert_ok := False\<rparr>) example_state)))
       = crawl_checkpoints (db example_state)
   \<and> after (state_of (iteration example_config
         ((example_reading (Response 200 (Some (example_page plenty example_nodes True))))
            \<lparr>upsert_ok := False\<rparr>) example_state))
       = after example_state
   \<and> ordered False (trace (run_state (crawl example_config
         [example_reading (Response 200 (Some (example_page plenty example_nodes False)))]
         (start example_config empty_store))))"
proof -
  let ?rd = "(example_reading (Response 200 (Some (example_page plenty example_nodes True))))
        \<lparr>upsert_ok := False\<rparr>"
  have refused: "\<not> upsert_ok ?rd" by (simp add: example_reading_def)
  note inst = checkpoint_after_commit [of example_config
      "[example_reading (Response 200 (Some (example_page plenty example_nodes False)))]"
      empty_store ?rd example_state]
  from inst have "\<not> upsert_ok ?rd \<longrightarrow>
      crawl_checkpoints (db (state_of (iteration example_config ?rd example_state)))
        = crawl_checkpoints (db example_state)
      \<and> after (state_of (iteration example_config ?rd example_state)) = after example_state"
    by blast
  with refused have "crawl_checkpoints (db (state_of (iteration example_config ?rd example_state)))
        = crawl_checkpoints (db example_state)
      \<and> after (state_of (iteration example_config ?rd example_state)) = after example_state"
    by blast
  moreover from inst have "ordered False (trace (run_state (crawl example_config
         [example_reading (Response 200 (Some (example_page plenty example_nodes False)))]
         (start example_config empty_store))))"
    by blast
  ultimately show ?thesis using refused by blast
qed

subsection \<open>One entry without identifier\<close>






subsection \<open>How the loop ends\<close>







end
